theory Spec2Isabelle
  imports Main
begin

section \<open>Data model of AndroidNavigationBaseTemplate.ts\<close>

text \<open>
  A JavaScript object property is in one of four states that the code tells apart:
  the key is absent (\<open>'id' in action\<close> is false), the key is bound to \<open>undefined\<close>,
  bound to \<open>null\<close>, or bound to a value. \<open>x == null\<close> holds in the second and third
  state, and reading an absent key gives \<open>undefined\<close>.
\<close>

datatype 'a property = Absent | Undefined | Null | Val 'a

text \<open>
  The function-valued properties of \<open>Object.prototype\<close> (ECMAScript 20.1.3), which every
  ordinary object inherits: \<open>constructor\<close>, \<open>hasOwnProperty\<close>, \<open>isPrototypeOf\<close>,
  \<open>propertyIsEnumerable\<close>, \<open>toLocaleString\<close>, \<open>toString\<close>, \<open>valueOf\<close>,
  \<open>__defineGetter__\<close>, \<open>__defineSetter__\<close>, \<open>__lookupGetter__\<close>, \<open>__lookupSetter__\<close>.
\<close>

datatype builtin =
  ObjectConstructor | HasOwnProperty | IsPrototypeOf | PropertyIsEnumerable | ToLocaleString
  | ToString | ValueOf | DefineGetter | DefineSetter | LookupGetter | LookupSetter

text \<open>
  A value stored under \<open>onPress\<close> or read from the registry. The dispatch handler tests
  it with \<open>callback == null || typeof callback !== 'function'\<close>, so the model keeps the
  nullish values and the non-function values (\<open>JSOther\<close>: an object that is not callable,
  or a primitive) apart from functions. A function of the application is named by a
  number; invoking it is recorded, not executed.
\<close>

datatype jsvalue = JSUndefined | JSNull | JSFunction nat | JSBuiltin builtin | JSOther

text \<open>
  An action (\<open>AndroidAction\<close>) or a grid button (\<open>AndroidGridButton & { id?: string }\<close>):
  the \<open>id\<close> property, the \<open>onPress\<close> key (\<open>None\<close>: the key is absent, which is what
  \<open>'onPress' in action\<close> tests) and all the other properties, which the code only copies.
\<close>

record 'a node =
  id_prop :: "string property"
  onPress :: "jsvalue option"
  other :: 'a

record ('a, 'p) pane =
  pane_actions :: "'a node list property"
  pane_rest :: 'p

text \<open>
  The configuration, both as \<open>parseConfig\<close> receives it and as it hands it on
  (\<open>updatedConfig\<close>): the five slots and \<open>rest\<close>, every other key.
\<close>

record ('a, 'p, 'r) config =
  actions :: "'a node list property"
  mapButtons :: "'a node list property"
  navigateAction :: "'a node property"
  pane :: "('a, 'p) pane property"
  buttons :: "'a node list property"
  rest :: 'r

text \<open>
  The mutable state \<open>parseConfig\<close> works on: the template's \<open>pressableCallbacks\<close>
  object, the local array \<open>callbackIds\<close> (emptied on entry, line 131; kept in the state
  so that statements can refer to what the last walk collected) and the number of
  identifiers \<open>getCallbackActionId\<close> has handed out so far.

  \<open>pressableCallbacks\<close> is an ordinary object: the literal \<open>{}\<close> of line 81, then the
  result of \<open>Object.fromEntries\<close> (line 232) after every call. Its prototype is
  \<open>Object.prototype\<close>, and the field holds the map of its own string keys, which is what
  \<open>Object.entries\<close> lists. Reading and writing a property go through \<open>getProperty\<close> and
  \<open>assign\<close> below, which look past the own keys.
\<close>

record state =
  pressableCallbacks :: "string \<rightharpoonup> jsvalue"
  callbackIds :: "string list"
  idCounter :: nat

text \<open>
  What a read \<open>object[key]\<close> finds on \<open>Object.prototype\<close> when the object has no own
  property \<open>key\<close>: one of the inherited functions, or, for \<open>__proto__\<close>, the value of the
  accessor, which is the prototype itself, an object that is not callable.
\<close>

definition objectPrototype :: "string \<rightharpoonup> jsvalue" where
  "objectPrototype =
     map_of
       [(''constructor'', JSBuiltin ObjectConstructor),
        (''hasOwnProperty'', JSBuiltin HasOwnProperty),
        (''isPrototypeOf'', JSBuiltin IsPrototypeOf),
        (''propertyIsEnumerable'', JSBuiltin PropertyIsEnumerable),
        (''toLocaleString'', JSBuiltin ToLocaleString),
        (''toString'', JSBuiltin ToString),
        (''valueOf'', JSBuiltin ValueOf),
        (''__defineGetter__'', JSBuiltin DefineGetter),
        (''__defineSetter__'', JSBuiltin DefineSetter),
        (''__lookupGetter__'', JSBuiltin LookupGetter),
        (''__lookupSetter__'', JSBuiltin LookupSetter),
        (''__proto__'', JSOther)]"

text \<open>
  The read \<open>this.pressableCallbacks[key]\<close> (line 103): the own property if there is one,
  else what the prototype chain gives, else \<open>undefined\<close>.
\<close>

definition getProperty :: "(string \<rightharpoonup> jsvalue) \<Rightarrow> string \<Rightarrow> jsvalue" where
  "getProperty own key =
     (case own key of
        Some v \<Rightarrow> v
      | None \<Rightarrow> (case objectPrototype key of Some v \<Rightarrow> v | None \<Rightarrow> JSUndefined))"

text \<open>
  The write \<open>this.pressableCallbacks[id] = onPress\<close> (lines 151, 167, 193, 211, 224). An
  own property is overwritten. Without one, the inherited data properties are writable,
  so the write creates an own property, except for \<open>__proto__\<close>: that name is an accessor
  of \<open>Object.prototype\<close>, the write runs its setter, and no own property is created.
  The setter makes a function or an object the new prototype of the registry object,
  which lasts until line 232 replaces the object; what later writes of the same walk do
  under that prototype is not followed, and the general statements about the registry
  are for walks that process no node under \<open>__proto__\<close>.
\<close>

definition assign :: "(string \<rightharpoonup> jsvalue) \<Rightarrow> string \<Rightarrow> jsvalue \<Rightarrow> (string \<rightharpoonup> jsvalue)" where
  "assign own key v = (if key = ''__proto__'' \<and> own key = None then own else own(key \<mapsto> v))"

text \<open>
  Modelled from the spec: \<open>getCallbackActionId\<close> of \<open>interfaces/Action.ts\<close>, which is not
  among the sources. Section 4.1: \<open>next() -> Identifier\<close> returns a string and has no
  side effect beyond advancing the generator. The parameter \<open>gen\<close> gives the \<open>n\<close>-th
  identifier the generator hands out; what is known of it is a hypothesis where needed.
\<close>

definition getCallbackActionId :: "(nat \<Rightarrow> string) \<Rightarrow> state \<Rightarrow> string \<times> state" where
  "getCallbackActionId gen s = (gen (idCounter s), s\<lparr>idCounter := Suc (idCounter s)\<rparr>)"

section \<open>parseConfig\<close>

text \<open>\<open>'id' in action ? action.id : getCallbackActionId()\<close> (lines 139, 182, 200, 217).\<close>

definition actionId :: "(nat \<Rightarrow> string) \<Rightarrow> state \<Rightarrow> 'a node \<Rightarrow> string property \<times> state" where
  "actionId gen s action =
     (if id_prop action \<noteq> Absent then (id_prop action, s)
      else (case getCallbackActionId gen s of (i, s') \<Rightarrow> (Val i, s')))"

text \<open>
  The callback given to \<open>map\<close> for \<open>pane.actions\<close>, \<open>actions\<close> and \<open>mapButtons\<close>
  (lines 138-153, 181-195, 199-213; the three bodies are the same).
\<close>

definition mapAction :: "(nat \<Rightarrow> string) \<Rightarrow> state \<Rightarrow> 'a node \<Rightarrow> 'a node \<times> state" where
  "mapAction gen s action =
     (case actionId gen s action of
        (Val i, s1) \<Rightarrow>
          (let s2 = s1\<lparr>callbackIds := callbackIds s1 @ [i]\<rparr> in
           case onPress action of
             None \<Rightarrow> (action, s2)
           | Some cb \<Rightarrow>
               (action\<lparr>onPress := None, id_prop := Val i\<rparr>,
                s2\<lparr>pressableCallbacks := assign (pressableCallbacks s2) i cb\<rparr>))
      | (_, s1) \<Rightarrow> (action, s1))"

text \<open>The callback given to \<open>map\<close> for \<open>buttons\<close> (lines 158-169): \<open>button.id ?? getCallbackActionId()\<close>.\<close>

definition mapButton :: "(nat \<Rightarrow> string) \<Rightarrow> state \<Rightarrow> 'a node \<Rightarrow> 'a node \<times> state" where
  "mapButton gen s button =
     (case (case id_prop button of Val i \<Rightarrow> (i, s) | _ \<Rightarrow> getCallbackActionId gen s) of
        (i, s1) \<Rightarrow>
          (let s2 = s1\<lparr>callbackIds := callbackIds s1 @ [i]\<rparr> in
           case onPress button of
             None \<Rightarrow> (button, s2)
           | Some cb \<Rightarrow>
               (button\<lparr>onPress := None, id_prop := Val i\<rparr>,
                s2\<lparr>pressableCallbacks := assign (pressableCallbacks s2) i cb\<rparr>)))"

text \<open>\<open>Array.prototype.map\<close> with a callback that changes the state: left to right.\<close>

fun mapWith :: "('s \<Rightarrow> 'x \<Rightarrow> 'y \<times> 's) \<Rightarrow> 's \<Rightarrow> 'x list \<Rightarrow> 'y list \<times> 's" where
  "mapWith f s [] = ([], s)"
| "mapWith f s (x # xs) =
     (case f s x of (y, s1) \<Rightarrow> (case mapWith f s1 xs of (ys, s2) \<Rightarrow> (y # ys, s2)))"

text \<open>\<open>updatedPane\<close> (lines 135-155).\<close>

definition updatedPane ::
  "(nat \<Rightarrow> string) \<Rightarrow> state \<Rightarrow> ('a, 'p) pane property \<Rightarrow> ('a, 'p) pane property \<times> state" where
  "updatedPane gen s p =
     (case p of
        Val pn \<Rightarrow>
          (case pane_actions pn of
             Val as \<Rightarrow> (case mapWith (mapAction gen) s as of
                          (as', s') \<Rightarrow> (Val (pn\<lparr>pane_actions := Val as'\<rparr>), s'))
           | _ \<Rightarrow> (Val (pn\<lparr>pane_actions := Undefined\<rparr>), s))
      | _ \<Rightarrow> (Undefined, s))"

text \<open>\<open>updatedButtons\<close> (lines 157-170).\<close>

definition updatedButtons ::
  "(nat \<Rightarrow> string) \<Rightarrow> state \<Rightarrow> 'a node list property \<Rightarrow> 'a node list property \<times> state" where
  "updatedButtons gen s bs =
     (case bs of
        Val bl \<Rightarrow> (case mapWith (mapButton gen) s bl of (bl', s') \<Rightarrow> (Val bl', s'))
      | _ \<Rightarrow> (Undefined, s))"

text \<open>\<open>if (actions != null) { updatedConfig.actions = actions.map(...) }\<close> (lines 180-196).\<close>

definition setActions ::
  "(nat \<Rightarrow> string) \<Rightarrow> 'a node list property \<Rightarrow> ('a, 'p, 'r) config \<times> state \<Rightarrow>
   ('a, 'p, 'r) config \<times> state" where
  "setActions gen as cs =
     (case cs of (updatedConfig, s) \<Rightarrow>
        (case as of
           Val al \<Rightarrow> (case mapWith (mapAction gen) s al of
                        (al', s') \<Rightarrow> (updatedConfig\<lparr>actions := Val al'\<rparr>, s'))
         | _ \<Rightarrow> (updatedConfig, s)))"

text \<open>\<open>if (mapButtons) { updatedConfig.mapButtons = mapButtons.map(...) }\<close> (lines 198-214).\<close>

definition setMapButtons ::
  "(nat \<Rightarrow> string) \<Rightarrow> 'a node list property \<Rightarrow> ('a, 'p, 'r) config \<times> state \<Rightarrow>
   ('a, 'p, 'r) config \<times> state" where
  "setMapButtons gen ms cs =
     (case cs of (updatedConfig, s) \<Rightarrow>
        (case ms of
           Val ml \<Rightarrow> (case mapWith (mapAction gen) s ml of
                        (ml', s') \<Rightarrow> (updatedConfig\<lparr>mapButtons := Val ml'\<rparr>, s'))
         | _ \<Rightarrow> (updatedConfig, s)))"

text \<open>\<open>if (navigateAction) { ... }\<close> (lines 216-230).\<close>

definition setNavigateAction ::
  "(nat \<Rightarrow> string) \<Rightarrow> 'a node property \<Rightarrow> ('a, 'p, 'r) config \<times> state \<Rightarrow>
   ('a, 'p, 'r) config \<times> state" where
  "setNavigateAction gen nav cs =
     (case cs of (updatedConfig, s) \<Rightarrow>
        (case nav of
           Val na \<Rightarrow>
             (case actionId gen s na of
                (Val i, s1) \<Rightarrow>
                  (let s2 = s1\<lparr>callbackIds := callbackIds s1 @ [i]\<rparr> in
                   case onPress na of
                     Some cb \<Rightarrow>
                       (updatedConfig\<lparr>navigateAction := Val (na\<lparr>onPress := None, id_prop := Val i\<rparr>)\<rparr>,
                        s2\<lparr>pressableCallbacks := assign (pressableCallbacks s2) i cb\<rparr>)
                   | None \<Rightarrow> (updatedConfig\<lparr>navigateAction := Val na\<rparr>, s2))
              | (_, s1) \<Rightarrow> (updatedConfig, s1))
         | _ \<Rightarrow> (updatedConfig, s)))"

text \<open>
  Lines 131-230: the walk over the five slots, in the order of the source
  (pane actions, buttons, actions, map buttons, navigate action). It returns
  \<open>updatedConfig\<close> and the state before the registry is pruned.
\<close>

definition walk ::
  "(nat \<Rightarrow> string) \<Rightarrow> state \<Rightarrow> ('a, 'p, 'r) config \<Rightarrow> ('a, 'p, 'r) config \<times> state" where
  "walk gen s config =
     (case updatedPane gen (s\<lparr>callbackIds := []\<rparr>) (pane config) of
        (up, s1) \<Rightarrow>
          (case updatedButtons gen s1 (buttons config) of
             (ub, s2) \<Rightarrow>
               setNavigateAction gen (navigateAction config)
                 (setMapButtons gen (mapButtons config)
                   (setActions gen (actions config)
                     (\<lparr>actions = Absent, mapButtons = Absent, navigateAction = Absent,
                       pane = up, buttons = ub, rest = rest config\<rparr>, s2)))))"

text \<open>
  Lines 232-234: only the entries whose key is in \<open>callbackIds\<close> are kept.
\<close>

definition prune :: "state \<Rightarrow> state" where
  "prune s = s\<lparr>pressableCallbacks := pressableCallbacks s |` set (callbackIds s)\<rparr>"

text \<open>
  The configuration handed to \<open>super.parseConfig\<close> (line 236) and the state after the call.
  \<open>Template.parseConfig\<close> is not among the sources; it is the parameter \<open>superParseConfig\<close>
  of \<open>parseConfig\<close>, and the clean configuration of the specification is \<open>updatedConfig\<close>,
  its argument.
\<close>

definition updatedConfig ::
  "(nat \<Rightarrow> string) \<Rightarrow> state \<Rightarrow> ('a, 'p, 'r) config \<Rightarrow> ('a, 'p, 'r) config" where
  "updatedConfig gen s config = fst (walk gen s config)"

definition parseConfig ::
  "(nat \<Rightarrow> string) \<Rightarrow> (('a, 'p, 'r) config \<Rightarrow> 'out) \<Rightarrow> state \<Rightarrow> ('a, 'p, 'r) config \<Rightarrow>
   'out \<times> state" where
  "parseConfig gen superParseConfig s config =
     (case walk gen s config of
        (uc, s') \<Rightarrow> (superParseConfig uc, prune s'))"

text \<open>The state after a sequence of \<open>parseConfig\<close> calls on one template.\<close>

fun parseConfigs ::
  "(nat \<Rightarrow> string) \<Rightarrow> (('a, 'p, 'r) config \<Rightarrow> 'out) \<Rightarrow> state \<Rightarrow> ('a, 'p, 'r) config list \<Rightarrow> state" where
  "parseConfigs gen super s [] = s"
| "parseConfigs gen super s (c # cs) = parseConfigs gen super (snd (parseConfig gen super s c)) cs"

section \<open>The buttonPressed listener\<close>

record event =
  templateId :: "string property"
  buttonId :: string

text \<open>
  What the handler does with an event: it returns without a call, it calls a function of
  the application, it calls a function inherited from \<open>Object.prototype\<close> which returns,
  or a \<open>TypeError\<close> escapes from it.
\<close>

datatype dispatch = Dropped | Invoked nat | InvokedBuiltin builtin | TypeError

text \<open>\<open>typeof callback === 'function'\<close>.\<close>

fun isFunction :: "jsvalue \<Rightarrow> bool" where
  "isFunction (JSFunction f) = True"
| "isFunction (JSBuiltin b) = True"
| "isFunction _ = False"

text \<open>
  The call \<open>callback()\<close> of an inherited function, with \<open>this\<close> undefined and no
  argument. \<open>Object()\<close> returns a new object, \<open>isPrototypeOf\<close> returns \<open>false\<close> for an
  argument that is not an object and \<open>toString\<close> returns \<open>[object Undefined]\<close>; every
  other one starts with \<open>ToObject(this)\<close>, which throws a \<open>TypeError\<close> for \<open>undefined\<close>.
\<close>

fun callBuiltin :: "builtin \<Rightarrow> dispatch" where
  "callBuiltin ObjectConstructor = InvokedBuiltin ObjectConstructor"
| "callBuiltin IsPrototypeOf = InvokedBuiltin IsPrototypeOf"
| "callBuiltin ToString = InvokedBuiltin ToString"
| "callBuiltin b = TypeError"

text \<open>The call \<open>callback()\<close> (line 107); calling a value that is not a function throws.\<close>

fun call :: "jsvalue \<Rightarrow> dispatch" where
  "call (JSFunction f) = Invoked f"
| "call (JSBuiltin b) = callBuiltin b"
| "call _ = TypeError"

text \<open>Lines 102-108. The handler destructures \<open>buttonId\<close> only.\<close>

definition buttonPressed :: "state \<Rightarrow> event \<Rightarrow> dispatch" where
  "buttonPressed s e =
     (let callback = getProperty (pressableCallbacks s) (buttonId e)
      in if callback = JSUndefined \<or> callback = JSNull \<or> \<not> isFunction callback
         then Dropped
         else call callback)"

section \<open>Views of a configuration used in the statements\<close>

text \<open>The elements of an optional array, and of an optional single value.\<close>

definition slotList :: "'x list property \<Rightarrow> 'x list" where
  "slotList p = (case p of Val xs \<Rightarrow> xs | _ \<Rightarrow> [])"

definition single :: "'x property \<Rightarrow> 'x list" where
  "single p = (case p of Val x \<Rightarrow> [x] | _ \<Rightarrow> [])"

definition paneActions :: "('a, 'p) pane property \<Rightarrow> 'a node list" where
  "paneActions p = (case p of Val pn \<Rightarrow> slotList (pane_actions pn) | _ \<Rightarrow> [])"

text \<open>
  The interactive nodes of a configuration in the order in which \<open>parseConfig\<close> visits
  them: pane actions (line 138), buttons (158), actions (181), map buttons (199),
  navigate action (216).
\<close>

definition configNodes :: "('a, 'p, 'r) config \<Rightarrow> 'a node list" where
  "configNodes c =
     paneActions (pane c) @ slotList (buttons c) @ slotList (actions c) @
     slotList (mapButtons c) @ single (navigateAction c)"

text \<open>
  The same nodes, each tagged with \<open>True\<close> when it is a grid button, and what the walk
  does to one of them: a button goes through the callback of lines 158-169, every other
  node through the one shared by the action slots (for the navigate action, lines 216-230
  change the state as that callback does).
\<close>

definition nodesInOrder :: "('a, 'p, 'r) config \<Rightarrow> (bool \<times> 'a node) list" where
  "nodesInOrder c =
     map (Pair False) (paneActions (pane c)) @ map (Pair True) (slotList (buttons c)) @
     map (Pair False) (slotList (actions c)) @ map (Pair False) (slotList (mapButtons c)) @
     map (Pair False) (single (navigateAction c))"

definition stepNode :: "(nat \<Rightarrow> string) \<Rightarrow> state \<Rightarrow> bool \<times> 'a node \<Rightarrow> 'a node \<times> state" where
  "stepNode gen s bn = (if fst bn then mapButton gen s (snd bn) else mapAction gen s (snd bn))"

text \<open>Whether \<open>id == null\<close> holds of an \<open>id\<close> property that is present.\<close>

fun nullish :: "'x property \<Rightarrow> bool" where
  "nullish Undefined = True"
| "nullish Null = True"
| "nullish _ = False"

text \<open>
  The identifiers that the descriptors \<open>outs\<close> carry at the positions where the node of
  \<open>ins\<close> has an \<open>onPress\<close> key.
\<close>

definition idsFrom :: "'a node list \<Rightarrow> 'a node list \<Rightarrow> string list" where
  "idsFrom ins outs =
     concat (map (\<lambda>(a, a'). if onPress a \<noteq> None then single (id_prop a') else []) (zip ins outs))"

text \<open>
  The identifiers present in the clean configuration \<open>uc\<close> that originate from a
  callback-bearing node of the configuration \<open>c\<close>, slot by slot.
\<close>

definition callbackNodeIds :: "('a, 'p, 'r) config \<Rightarrow> ('a, 'p, 'r) config \<Rightarrow> string set" where
  "callbackNodeIds c uc =
     set (idsFrom (paneActions (pane c)) (paneActions (pane uc))) \<union>
     set (idsFrom (slotList (buttons c)) (slotList (buttons uc))) \<union>
     set (idsFrom (slotList (actions c)) (slotList (actions uc))) \<union>
     set (idsFrom (slotList (mapButtons c)) (slotList (mapButtons uc))) \<union>
     set (idsFrom (single (navigateAction c)) (single (navigateAction uc)))"

text \<open>
  The state in which the walk reaches each slot: \<open>callbackIds\<close> is emptied on entry, then
  the slots are visited in the order of the source.
\<close>

definition atPane :: "state \<Rightarrow> state" where
  "atPane s = s\<lparr>callbackIds := []\<rparr>"

definition atButtons :: "(nat \<Rightarrow> string) \<Rightarrow> state \<Rightarrow> ('a, 'p, 'r) config \<Rightarrow> state" where
  "atButtons gen s c = snd (mapWith (mapAction gen) (atPane s) (paneActions (pane c)))"

definition atActions :: "(nat \<Rightarrow> string) \<Rightarrow> state \<Rightarrow> ('a, 'p, 'r) config \<Rightarrow> state" where
  "atActions gen s c = snd (mapWith (mapButton gen) (atButtons gen s c) (slotList (buttons c)))"

definition atMapButtons :: "(nat \<Rightarrow> string) \<Rightarrow> state \<Rightarrow> ('a, 'p, 'r) config \<Rightarrow> state" where
  "atMapButtons gen s c = snd (mapWith (mapAction gen) (atActions gen s c) (slotList (actions c)))"

definition atNavigate :: "(nat \<Rightarrow> string) \<Rightarrow> state \<Rightarrow> ('a, 'p, 'r) config \<Rightarrow> state" where
  "atNavigate gen s c = snd (mapWith (mapAction gen) (atMapButtons gen s c) (slotList (mapButtons c)))"

text \<open>Lines 219-229 assign no \<open>navigateAction\<close> when its \<open>id\<close> is null or undefined.\<close>

definition navDropped :: "'a node property \<Rightarrow> bool" where
  "navDropped nav = (case nav of Val na \<Rightarrow> nullish (id_prop na) | _ \<Rightarrow> False)"

text \<open>
  A node for which \<open>getCallbackActionId\<close> is called: an action without \<open>id\<close> key, a
  button whose \<open>id\<close> is absent, null or undefined.
\<close>

definition needsId :: "bool \<times> 'a node \<Rightarrow> bool" where
  "needsId bn = (id_prop (snd bn) = Absent \<or> (fst bn \<and> nullish (id_prop (snd bn))))"

text \<open>
  The identifiers under which a list of tagged nodes is processed, in order, when the
  generator has handed out \<open>n\<close> identifiers before: the explicit \<open>id\<close> string of a node
  that has one, the next generated identifier for an action without \<open>id\<close> key and for a
  button without \<open>id\<close> string, and none for an action whose \<open>id\<close> is null or undefined.
\<close>

fun collectedIds :: "(nat \<Rightarrow> string) \<Rightarrow> nat \<Rightarrow> (bool \<times> 'a node) list \<Rightarrow> string list" where
  "collectedIds gen n [] = []"
| "collectedIds gen n ((b, a) # xs) =
     (case id_prop a of
        Val i \<Rightarrow> i # collectedIds gen n xs
      | Absent \<Rightarrow> gen n # collectedIds gen (Suc n) xs
      | _ \<Rightarrow> (if b then gen n # collectedIds gen (Suc n) xs else collectedIds gen n xs))"

section \<open>Sample inputs\<close>

text \<open>A template as its constructor leaves \<open>pressableCallbacks\<close> (lines 79-81): empty.\<close>

definition newTemplate :: state where
  "newTemplate = \<lparr>pressableCallbacks = Map.empty, callbackIds = [], idCounter = 0\<rparr>"

text \<open>An identifier generator: \<open>#\<close>, \<open>#i\<close>, \<open>#ii\<close>, ...\<close>

definition sampleId :: "nat \<Rightarrow> string" where
  "sampleId n = CHR ''#'' # replicate n CHR ''i''"

text \<open>
  The configuration \<open>{}\<close>, and the ones with the given \<open>actions\<close>, or the given
  \<open>buttons\<close>, only.
\<close>

definition emptyConfig :: "(string, unit, unit) config" where
  "emptyConfig =
     \<lparr>actions = Absent, mapButtons = Absent, navigateAction = Absent, pane = Absent,
      buttons = Absent, rest = ()\<rparr>"

definition withActions :: "string node list \<Rightarrow> (string, unit, unit) config" where
  "withActions as = emptyConfig\<lparr>actions := Val as\<rparr>"



text \<open>
  Two configurations with one action \<open>a\<close>: with a callback, and without one.
\<close>

definition callbackA :: "(string, unit, unit) config" where
  "callbackA = withActions [\<lparr>id_prop = Val ''a'', onPress = Some (JSFunction 1), other = ''Back''\<rparr>]"

definition plainA :: "(string, unit, unit) config" where
  "plainA = withActions [\<lparr>id_prop = Val ''a'', onPress = None, other = ''Back''\<rparr>]"


text \<open>
  A grid button and an action that share the explicit identifier \<open>x\<close>, followed by an
  action with a callback and no \<open>id\<close>.
\<close>

definition sharedId :: "(string, unit, unit) config" where
  "sharedId =
     emptyConfig\<lparr>buttons := Val [\<lparr>id_prop = Val ''x'', onPress = Some (JSFunction 1), other = ''Menu''\<rparr>],
                 actions := Val [\<lparr>id_prop = Val ''x'', onPress = Some (JSFunction 2), other = ''Back''\<rparr>,
                                 \<lparr>id_prop = Absent, onPress = Some (JSFunction 3), other = ''Pan''\<rparr>]\<rparr>"

text \<open>A configuration with one action \<open>b\<close> that has a callback.\<close>

definition callbackB :: "(string, unit, unit) config" where
  "callbackB = withActions [\<lparr>id_prop = Val ''b'', onPress = Some (JSFunction 2), other = ''Pan''\<rparr>]"

text \<open>
  A grid button and an action that share the explicit identifier \<open>#\<close>, followed by an
  action with a callback and no \<open>id\<close>; \<open>#\<close> is also the first identifier of \<open>sampleId\<close>.
\<close>

definition collidingIds :: "(string, unit, unit) config" where
  "collidingIds =
     emptyConfig\<lparr>buttons := Val [\<lparr>id_prop = Val ''#'', onPress = Some (JSFunction 1), other = ''Menu''\<rparr>],
                 actions := Val [\<lparr>id_prop = Val ''#'', onPress = Some (JSFunction 2), other = ''Back''\<rparr>,
                                 \<lparr>id_prop = Absent, onPress = Some (JSFunction 3), other = ''Pan''\<rparr>]\<rparr>"


section \<open>Auxiliary lemmas\<close>

subsection \<open>The stateful map\<close>

lemma mapWith_Cons:
  "mapWith f s (x # xs) =
     (fst (f s x) # fst (mapWith f (snd (f s x)) xs), snd (mapWith f (snd (f s x)) xs))"
  by (simp add: case_prod_beta)

declare mapWith.simps(2) [simp del]

declare mapWith_Cons [simp]

lemma mapWith_length: "length (fst (mapWith f s xs)) = length xs"
  by (induction xs arbitrary: s) (simp_all add: case_prod_beta)

lemma mapWith_append:
  "mapWith f s (xs @ ys) =
     (fst (mapWith f s xs) @ fst (mapWith f (snd (mapWith f s xs)) ys),
      snd (mapWith f (snd (mapWith f s xs)) ys))"
  by (induction xs arbitrary: s) (simp_all add: case_prod_beta)

lemma mapWith_tag:
  "mapWith (stepNode gen) s (map (Pair False) xs) = mapWith (mapAction gen) s xs"
  "mapWith (stepNode gen) s (map (Pair True) xs) = mapWith (mapButton gen) s xs"
  by (induction xs arbitrary: s, simp_all add: stepNode_def case_prod_beta)+


subsection \<open>The five stages\<close>

lemma setActions_fields:
  "mapButtons (fst (setActions gen as cs)) = mapButtons (fst cs)"
  "navigateAction (fst (setActions gen as cs)) = navigateAction (fst cs)"
  "pane (fst (setActions gen as cs)) = pane (fst cs)"
  "buttons (fst (setActions gen as cs)) = buttons (fst cs)"
  "rest (fst (setActions gen as cs)) = rest (fst cs)"
  by (simp_all add: setActions_def case_prod_beta split: property.splits)

lemma setMapButtons_fields:
  "actions (fst (setMapButtons gen ms cs)) = actions (fst cs)"
  "navigateAction (fst (setMapButtons gen ms cs)) = navigateAction (fst cs)"
  "pane (fst (setMapButtons gen ms cs)) = pane (fst cs)"
  "buttons (fst (setMapButtons gen ms cs)) = buttons (fst cs)"
  "rest (fst (setMapButtons gen ms cs)) = rest (fst cs)"
  by (simp_all add: setMapButtons_def case_prod_beta split: property.splits)

lemma setNavigateAction_fields:
  "actions (fst (setNavigateAction gen nav cs)) = actions (fst cs)"
  "mapButtons (fst (setNavigateAction gen nav cs)) = mapButtons (fst cs)"
  "pane (fst (setNavigateAction gen nav cs)) = pane (fst cs)"
  "buttons (fst (setNavigateAction gen nav cs)) = buttons (fst cs)"
  "rest (fst (setNavigateAction gen nav cs)) = rest (fst cs)"
  by (simp_all add: setNavigateAction_def Let_def case_prod_beta split: property.splits option.splits)

lemma updatedPane_snd:
  "snd (updatedPane gen s p) = snd (mapWith (mapAction gen) s (paneActions p))"
  by (simp add: updatedPane_def paneActions_def slotList_def case_prod_beta split: property.splits)

lemma updatedPane_fst:
  "paneActions (fst (updatedPane gen s p)) = fst (mapWith (mapAction gen) s (paneActions p))"
  by (simp add: updatedPane_def paneActions_def slotList_def case_prod_beta split: property.splits)

lemma updatedButtons_snd:
  "snd (updatedButtons gen s bs) = snd (mapWith (mapButton gen) s (slotList bs))"
  by (simp add: updatedButtons_def slotList_def case_prod_beta split: property.splits)

lemma updatedButtons_fst:
  "slotList (fst (updatedButtons gen s bs)) = fst (mapWith (mapButton gen) s (slotList bs))"
  by (simp add: updatedButtons_def slotList_def case_prod_beta split: property.splits)

lemma setActions_snd:
  "snd (setActions gen as cs) = snd (mapWith (mapAction gen) (snd cs) (slotList as))"
  by (simp add: setActions_def slotList_def case_prod_beta split: property.splits)

lemma setActions_fst:
  "actions (fst cs) = Absent \<Longrightarrow>
   slotList (actions (fst (setActions gen as cs))) = fst (mapWith (mapAction gen) (snd cs) (slotList as))"
  by (simp add: setActions_def slotList_def case_prod_beta split: property.splits)

lemma setMapButtons_snd:
  "snd (setMapButtons gen ms cs) = snd (mapWith (mapAction gen) (snd cs) (slotList ms))"
  by (simp add: setMapButtons_def slotList_def case_prod_beta split: property.splits)

lemma setMapButtons_fst:
  "mapButtons (fst cs) = Absent \<Longrightarrow>
   slotList (mapButtons (fst (setMapButtons gen ms cs))) = fst (mapWith (mapAction gen) (snd cs) (slotList ms))"
  by (simp add: setMapButtons_def slotList_def case_prod_beta split: property.splits)

lemma setNavigateAction_snd:
  "snd (setNavigateAction gen nav cs) = snd (mapWith (mapAction gen) (snd cs) (single nav))"
  by (simp add: setNavigateAction_def single_def mapAction_def Let_def
      case_prod_beta split: property.splits option.splits)

lemma setNavigateAction_fst:
  "navigateAction (fst cs) = Absent \<Longrightarrow>
   single (navigateAction (fst (setNavigateAction gen nav cs))) =
     (if navDropped nav then [] else fst (mapWith (mapAction gen) (snd cs) (single nav)))"
  by (auto simp add: setNavigateAction_def single_def mapAction_def Let_def navDropped_def actionId_def getCallbackActionId_def
      case_prod_beta split: property.splits option.splits)

subsection \<open>One node\<close>

lemma idsFrom_Nil [simp]: "idsFrom [] outs = []" "idsFrom ins [] = []"
  by (simp_all add: idsFrom_def)

lemma idsFrom_Cons [simp]:
  "idsFrom (a # ins) (a' # outs) =
     (if onPress a \<noteq> None then single (id_prop a') else []) @ idsFrom ins outs"
  by (simp add: idsFrom_def)

lemma idsFrom_append:
  "length ins = length outs \<Longrightarrow>
   idsFrom (ins @ ins') (outs @ outs') = idsFrom ins outs @ idsFrom ins' outs'"
  by (simp add: idsFrom_def)

lemmas node_defs = stepNode_def mapAction_def mapButton_def actionId_def getCallbackActionId_def Let_def

lemma stepNode_ids_prefix:
  "\<exists>ys. callbackIds (snd (stepNode gen s x)) = callbackIds s @ ys"
  by (cases x) (auto simp: node_defs split: property.splits option.splits)

lemma stepNode_ids_sub:
  "set (if onPress (snd x) \<noteq> None then single (id_prop (fst (stepNode gen s x))) else [])
     \<subseteq> set (callbackIds (snd (stepNode gen s x)))"
  by (cases x) (auto simp: node_defs single_def split: property.splits option.splits)

lemma mapWith_ids_prefix:
  "\<exists>ys. callbackIds (snd (mapWith (stepNode gen) s xs)) = callbackIds s @ ys"
proof (induction xs arbitrary: s)
  case Nil show ?case by simp
next
  case (Cons x xs)
  obtain ys where 1: "callbackIds (snd (stepNode gen s x)) = callbackIds s @ ys"
    using stepNode_ids_prefix by blast
  obtain zs where 2: "callbackIds (snd (mapWith (stepNode gen) (snd (stepNode gen s x)) xs))
      = callbackIds (snd (stepNode gen s x)) @ zs"
    using Cons.IH by blast
  show ?case by (simp add: case_prod_beta 1 2)
qed

lemma mapWith_ids_mono:
  "set (callbackIds s) \<subseteq> set (callbackIds (snd (mapWith (stepNode gen) s xs)))"
  using mapWith_ids_prefix[of gen s xs] by auto

lemma mapWith_ids_sub:
  "set (idsFrom (map snd xs) (fst (mapWith (stepNode gen) s xs)))
     \<subseteq> set (callbackIds (snd (mapWith (stepNode gen) s xs)))"
proof (induction xs arbitrary: s)
  case Nil show ?case by simp
next
  case (Cons x xs)
  have "set (if onPress (snd x) \<noteq> None then single (id_prop (fst (stepNode gen s x))) else [])
      \<subseteq> set (callbackIds (snd (mapWith (stepNode gen) (snd (stepNode gen s x)) xs)))"
    using stepNode_ids_sub[of x gen s] mapWith_ids_mono[of "snd (stepNode gen s x)" gen xs]
    by blast
  with Cons.IH[of "snd (stepNode gen s x)"] show ?case
    by (simp add: case_prod_beta)
qed

subsection \<open>The walk\<close>

lemmas at_defs = atPane_def atButtons_def atActions_def atMapButtons_def atNavigate_def

lemma walk_snd:
  "snd (walk gen s c) = snd (mapWith (mapAction gen) (atNavigate gen s c) (single (navigateAction c)))"
  by (simp add: walk_def case_prod_beta setNavigateAction_snd setMapButtons_snd setActions_snd
      updatedButtons_snd updatedPane_snd at_defs)

lemma walk_snd_nodes:
  "snd (walk gen s c) = snd (mapWith (stepNode gen) (atPane s) (nodesInOrder c))"
  by (simp add: walk_snd nodesInOrder_def mapWith_append mapWith_tag at_defs)

lemma walk_pane:
  "pane (updatedConfig gen s c) = fst (updatedPane gen (atPane s) (pane c))"
  by (simp add: updatedConfig_def walk_def case_prod_beta setNavigateAction_fields
      setMapButtons_fields setActions_fields at_defs)

lemma walk_buttons:
  "buttons (updatedConfig gen s c) = fst (updatedButtons gen (atButtons gen s c) (buttons c))"
  by (simp add: updatedConfig_def walk_def case_prod_beta setNavigateAction_fields
      setMapButtons_fields setActions_fields updatedPane_snd at_defs)

lemma walk_rest: "rest (updatedConfig gen s c) = rest c"
  by (simp add: updatedConfig_def walk_def case_prod_beta setNavigateAction_fields
      setMapButtons_fields setActions_fields)

lemma walk_actions:
  "actions (updatedConfig gen s c) =
     (case actions c of
        Val al \<Rightarrow> Val (fst (mapWith (mapAction gen) (atActions gen s c) al))
      | _ \<Rightarrow> Absent)"
  by (simp add: updatedConfig_def walk_def case_prod_beta setNavigateAction_fields
      setMapButtons_fields updatedPane_snd updatedButtons_snd at_defs setActions_def
      split: property.splits)

lemma walk_mapButtons:
  "mapButtons (updatedConfig gen s c) =
     (case mapButtons c of
        Val ml \<Rightarrow> Val (fst (mapWith (mapAction gen) (atMapButtons gen s c) ml))
      | _ \<Rightarrow> Absent)"
  by (simp add: updatedConfig_def walk_def case_prod_beta setNavigateAction_fields
      setActions_fields setActions_snd updatedPane_snd updatedButtons_snd at_defs setMapButtons_def
      split: property.splits)

lemma walk_navigateAction:
  "navigateAction (updatedConfig gen s c) =
     (case navigateAction c of
        Val na \<Rightarrow> if nullish (id_prop na) then Absent
                  else Val (fst (mapAction gen (atNavigate gen s c) na))
      | _ \<Rightarrow> Absent)"
  by (simp add: updatedConfig_def walk_def case_prod_beta
      setActions_fields setActions_snd setMapButtons_fields setMapButtons_snd
      updatedPane_snd updatedButtons_snd at_defs setNavigateAction_def
      mapAction_def actionId_def getCallbackActionId_def Let_def
      split: property.splits option.splits)


lemma parseConfig_snd: "snd (parseConfig gen super s c) = prune (snd (walk gen s c))"
  by (simp add: parseConfig_def case_prod_beta)

lemma prune_simps [simp]:
  "idCounter (prune s) = idCounter s"
  "callbackIds (prune s) = callbackIds s"
  "pressableCallbacks (prune s) = pressableCallbacks s |` set (callbackIds s)"
  by (simp_all add: prune_def)

lemma stepNode_counter:
  "idCounter (snd (stepNode gen s x)) = idCounter s + (if needsId x then 1 else 0)"
  by (cases x) (auto simp: node_defs needsId_def split: property.splits option.splits)

lemma mapWith_counter:
  "idCounter (snd (mapWith (stepNode gen) s xs)) = idCounter s + length (filter needsId xs)"
  by (induction xs arbitrary: s) (simp_all add: case_prod_beta stepNode_counter)

lemmas eval_defs = parseConfig_snd walk_snd_nodes nodesInOrder_def single_def slotList_def
  paneActions_def atPane_def node_defs assign_def

subsection \<open>The listener\<close>

lemma buttonPressed_own:
  "pressableCallbacks s (buttonId e) = Some v \<Longrightarrow>
   buttonPressed s e = (if isFunction v then call v else Dropped)"
  by (cases v) (simp_all add: buttonPressed_def getProperty_def)

lemma buttonPressed_miss:
  "pressableCallbacks s (buttonId e) = None \<Longrightarrow> objectPrototype (buttonId e) = None \<Longrightarrow>
   buttonPressed s e = Dropped"
  by (simp add: buttonPressed_def getProperty_def)

lemma buttonPressed_inherited:
  "pressableCallbacks s (buttonId e) = None \<Longrightarrow> objectPrototype (buttonId e) = Some (JSBuiltin b) \<Longrightarrow>
   buttonPressed s e = callBuiltin b"
  by (simp add: buttonPressed_def getProperty_def)

lemma nodesInOrder_snd: "map snd (nodesInOrder c) = configNodes c"
  by (simp add: nodesInOrder_def configNodes_def comp_def)

subsection \<open>Writes to the registry\<close>

lemma assign_other: "key \<noteq> ''__proto__'' \<Longrightarrow> assign own key v = own(key \<mapsto> v)"
  by (simp add: assign_def)

lemma assign_same: "k \<noteq> key \<Longrightarrow> assign own key v k = own k"
  by (simp add: assign_def)



lemma assign_proto: "own ''__proto__'' = None \<Longrightarrow> assign own ''__proto__'' v = own"
  by (simp add: assign_def)

subsection \<open>The identifiers a walk collects\<close>

lemma collectedIds_Cons:
  "collectedIds gen n (x # xs) =
     collectedIds gen n [x] @ collectedIds gen (n + (if needsId x then 1 else 0)) xs"
  by (cases x) (auto simp: needsId_def split: property.splits)

lemma stepNode_collected:
  "callbackIds (snd (stepNode gen s x)) = callbackIds s @ collectedIds gen (idCounter s) [x]"
  by (cases x) (auto simp: node_defs split: property.splits option.splits)

lemma mapWith_collected:
  "callbackIds (snd (mapWith (stepNode gen) s xs)) =
     callbackIds s @ collectedIds gen (idCounter s) xs"
proof (induction xs arbitrary: s)
  case Nil show ?case by simp
next
  case (Cons x xs)
  have "collectedIds gen (idCounter s) (x # xs) =
      collectedIds gen (idCounter s) [x] @
      collectedIds gen (idCounter (snd (stepNode gen s x))) xs"
    by (subst collectedIds_Cons) (simp add: stepNode_counter)
  then show ?case by (simp add: Cons.IH stepNode_collected)
qed

lemma walk_collected:
  "callbackIds (snd (walk gen s c)) = collectedIds gen (idCounter s) (nodesInOrder c)"
  by (simp add: walk_snd_nodes mapWith_collected atPane_def)

lemma parseConfig_collected:
  "callbackIds (snd (parseConfig gen super s c)) =
     collectedIds gen (idCounter s) (nodesInOrder c)"
  by (simp add: parseConfig_snd walk_collected)

lemma collectedIds_avoid:
  "\<forall>x\<in>set xs. id_prop (snd x) \<noteq> Val p \<Longrightarrow> \<forall>m\<ge>n. gen m \<noteq> p \<Longrightarrow>
   p \<notin> set (collectedIds gen n xs)"
proof (induction xs arbitrary: n)
  case Nil show ?case by simp
next
  case (Cons x xs)
  obtain b a where x: "x = (b, a)" by (cases x)
  have later: "p \<notin> set (collectedIds gen n xs)" "p \<notin> set (collectedIds gen (Suc n) xs)"
    using Cons.IH[of n] Cons.IH[of "Suc n"] Cons.prems by simp_all
  have "gen n \<noteq> p" using Cons.prems(2) by simp
  with later Cons.prems(1) show ?case
    by (auto simp: x split: property.splits)
qed

lemma configNodes_avoid:
  "\<forall>n\<in>set (configNodes c). id_prop n \<noteq> Val p \<Longrightarrow> \<forall>m\<ge>k. gen m \<noteq> p \<Longrightarrow>
   p \<notin> set (collectedIds gen k (nodesInOrder c))"
  by (rule collectedIds_avoid) (auto simp: nodesInOrder_snd[symmetric])

subsection \<open>The keys of the registry after a call\<close>

lemma stepNode_dom:
  "''__proto__'' \<notin> set (collectedIds gen (idCounter s) [x]) \<Longrightarrow>
   dom (pressableCallbacks (snd (stepNode gen s x))) =
     dom (pressableCallbacks s) \<union>
     set (if onPress (snd x) \<noteq> None then single (id_prop (fst (stepNode gen s x))) else [])"
  by (cases x)
     (auto simp: node_defs single_def assign_other split: property.splits option.splits if_splits)

lemma mapWith_dom:
  "''__proto__'' \<notin> set (collectedIds gen (idCounter s) xs) \<Longrightarrow>
   dom (pressableCallbacks (snd (mapWith (stepNode gen) s xs))) =
     dom (pressableCallbacks s) \<union> set (idsFrom (map snd xs) (fst (mapWith (stepNode gen) s xs)))"
proof (induction xs arbitrary: s)
  case Nil show ?case by simp
next
  case (Cons x xs)
  have split: "collectedIds gen (idCounter s) (x # xs) =
      collectedIds gen (idCounter s) [x] @
      collectedIds gen (idCounter (snd (stepNode gen s x))) xs"
    by (subst collectedIds_Cons) (simp add: stepNode_counter)
  with Cons.prems have 1: "''__proto__'' \<notin> set (collectedIds gen (idCounter s) [x])"
    and 2: "''__proto__'' \<notin> set (collectedIds gen (idCounter (snd (stepNode gen s x))) xs)"
    by simp_all
  show ?case
    by (auto simp add: Cons.IH[OF 2] stepNode_dom[OF 1])
qed

lemma walk_lists:
  "paneActions (pane (updatedConfig gen s c)) =
     fst (mapWith (mapAction gen) (atPane s) (paneActions (pane c)))"
  "slotList (buttons (updatedConfig gen s c)) =
     fst (mapWith (mapButton gen) (atButtons gen s c) (slotList (buttons c)))"
  "slotList (actions (updatedConfig gen s c)) =
     fst (mapWith (mapAction gen) (atActions gen s c) (slotList (actions c)))"
  "slotList (mapButtons (updatedConfig gen s c)) =
     fst (mapWith (mapAction gen) (atMapButtons gen s c) (slotList (mapButtons c)))"
proof -
  show "paneActions (pane (updatedConfig gen s c)) =
     fst (mapWith (mapAction gen) (atPane s) (paneActions (pane c)))"
    by (simp add: walk_pane updatedPane_fst)
  show "slotList (buttons (updatedConfig gen s c)) =
     fst (mapWith (mapButton gen) (atButtons gen s c) (slotList (buttons c)))"
    by (simp add: walk_buttons updatedButtons_fst)
  show "slotList (actions (updatedConfig gen s c)) =
     fst (mapWith (mapAction gen) (atActions gen s c) (slotList (actions c)))"
    by (simp add: walk_actions slotList_def split: property.splits)
  show "slotList (mapButtons (updatedConfig gen s c)) =
     fst (mapWith (mapAction gen) (atMapButtons gen s c) (slotList (mapButtons c)))"
    by (simp add: walk_mapButtons slotList_def split: property.splits)
qed

lemma atPane_simps [simp]:
  "pressableCallbacks (atPane s) = pressableCallbacks s"
  "idCounter (atPane s) = idCounter s"
  "callbackIds (atPane s) = []"
  by (simp_all add: atPane_def)

lemma walk_outs:
  "fst (mapWith (stepNode gen) (atPane s) (nodesInOrder c)) =
     paneActions (pane (updatedConfig gen s c)) @ slotList (buttons (updatedConfig gen s c)) @
     slotList (actions (updatedConfig gen s c)) @ slotList (mapButtons (updatedConfig gen s c)) @
     fst (mapWith (mapAction gen) (atNavigate gen s c) (single (navigateAction c)))"
  by (simp add: nodesInOrder_def mapWith_append mapWith_tag walk_lists
      atButtons_def atActions_def atMapButtons_def atNavigate_def)

lemma walk_nav_ids:
  "idsFrom (single (navigateAction c)) (single (navigateAction (updatedConfig gen s c))) =
   idsFrom (single (navigateAction c))
     (fst (mapWith (mapAction gen) (atNavigate gen s c) (single (navigateAction c))))"
  by (auto simp: walk_navigateAction single_def node_defs split: property.splits option.splits)

lemma walk_lengths:
  "length (paneActions (pane (updatedConfig gen s c))) = length (paneActions (pane c))"
  "length (slotList (buttons (updatedConfig gen s c))) = length (slotList (buttons c))"
  "length (slotList (actions (updatedConfig gen s c))) = length (slotList (actions c))"
  "length (slotList (mapButtons (updatedConfig gen s c))) = length (slotList (mapButtons c))"
  by (simp_all add: walk_lists mapWith_length)

lemma walk_ids:
  "set (idsFrom (configNodes c) (fst (mapWith (stepNode gen) (atPane s) (nodesInOrder c)))) =
   callbackNodeIds c (updatedConfig gen s c)"
  unfolding walk_outs configNodes_def callbackNodeIds_def walk_nav_ids
  by (simp add: idsFrom_append walk_lengths Un_assoc)

lemma walk_dom:
  "''__proto__'' \<notin> set (collectedIds gen (idCounter s) (nodesInOrder c)) \<Longrightarrow>
   dom (pressableCallbacks (snd (walk gen s c))) =
     dom (pressableCallbacks s) \<union> callbackNodeIds c (updatedConfig gen s c)"
  using mapWith_dom[of gen "atPane s" "nodesInOrder c"]
  by (simp add: walk_snd_nodes nodesInOrder_snd walk_ids)

lemma walk_ids_sub:
  "callbackNodeIds c (updatedConfig gen s c) \<subseteq> set (callbackIds (snd (walk gen s c)))"
  using mapWith_ids_sub[of "nodesInOrder c" gen "atPane s"]
  by (simp add: walk_snd_nodes nodesInOrder_snd walk_ids)

lemma parseConfigs_snoc:
  "parseConfigs gen super s (cs @ [c]) = snd (parseConfig gen super (parseConfigs gen super s cs) c)"
  by (induction cs arbitrary: s) simp_all

lemma parseConfig_dom:
  "''__proto__'' \<notin> set (collectedIds gen (idCounter s) (nodesInOrder c)) \<Longrightarrow>
   dom (pressableCallbacks (snd (parseConfig gen super s c))) =
     callbackNodeIds c (updatedConfig gen s c) \<union>
     (dom (pressableCallbacks s) \<inter> set (collectedIds gen (idCounter s) (nodesInOrder c)))"
  using walk_ids_sub[of c gen s]
  by (auto simp: parseConfig_snd walk_dom walk_collected)

subsection \<open>Nodes with an explicit identifier\<close>







subsection \<open>Identifiers of the descriptors\<close>

lemma stepNode_out_id:
  "id_prop (fst (stepNode gen s x)) = Val i \<Longrightarrow> i \<in> set (callbackIds (snd (stepNode gen s x)))"
  by (cases x) (auto simp: node_defs split: property.splits option.splits if_splits)

lemma mapWith_out_ids:
  "d \<in> set (fst (mapWith (stepNode gen) s xs)) \<Longrightarrow> id_prop d = Val i \<Longrightarrow>
   i \<in> set (callbackIds (snd (mapWith (stepNode gen) s xs)))"
proof (induction xs arbitrary: s)
  case Nil then show ?case by simp
next
  case (Cons x xs)
  from Cons.prems(1) consider "d = fst (stepNode gen s x)"
    | "d \<in> set (fst (mapWith (stepNode gen) (snd (stepNode gen s x)) xs))"
    by (auto simp: case_prod_beta)
  then show ?case
  proof cases
    case 1
    with Cons.prems(2) have "i \<in> set (callbackIds (snd (stepNode gen s x)))"
      by (simp add: stepNode_out_id)
    with mapWith_ids_mono[of "snd (stepNode gen s x)" gen xs] show ?thesis
      by (auto simp: case_prod_beta)
  next
    case 2
    from Cons.IH[OF 2 Cons.prems(2)] show ?thesis by (simp add: case_prod_beta)
  qed
qed

lemma configNodes_outs:
  "set (configNodes (updatedConfig gen s c))
     \<subseteq> set (fst (mapWith (stepNode gen) (atPane s) (nodesInOrder c)))"
  by (auto simp: walk_outs configNodes_def walk_navigateAction single_def case_prod_beta
      split: property.splits if_splits)

lemma walk_out_ids:
  "d \<in> set (configNodes (updatedConfig gen s c)) \<Longrightarrow> id_prop d = Val i \<Longrightarrow>
   i \<in> set (callbackIds (snd (walk gen s c)))"
  using configNodes_outs[of gen s c] mapWith_out_ids[of d gen "atPane s" "nodesInOrder c" i]
  by (auto simp: walk_snd_nodes)

lemmas eval_out = walk_pane walk_buttons walk_actions walk_mapButtons walk_navigateAction
  walk_rest updatedPane_def updatedButtons_def at_defs

subsection \<open>The generator's counter\<close>

lemma mapWith_counter_mono:
  "idCounter s \<le> idCounter (snd (mapWith (stepNode gen) s xs))"
  by (simp add: mapWith_counter)







subsection \<open>Later nodes and the registry\<close>

lemma stepNode_keep:
  "onPress (snd x) = None \<or> id_prop (snd x) \<noteq> Val i \<Longrightarrow> gen (idCounter s) \<noteq> i \<Longrightarrow>
   pressableCallbacks (snd (stepNode gen s x)) i = pressableCallbacks s i"
  by (cases x) (auto simp: node_defs assign_same split: property.splits option.splits)

lemma mapWith_keep:
  "\<forall>x\<in>set xs. onPress (snd x) = None \<or> id_prop (snd x) \<noteq> Val i \<Longrightarrow>
   \<forall>m\<ge>idCounter s. gen m \<noteq> i \<Longrightarrow>
   pressableCallbacks (snd (mapWith (stepNode gen) s xs)) i = pressableCallbacks s i"
proof (induction xs arbitrary: s)
  case Nil show ?case by simp
next
  case (Cons x xs)
  have "idCounter s \<le> idCounter (snd (stepNode gen s x))"
    by (simp add: stepNode_counter)
  with Cons.prems(2) have "\<forall>m\<ge>idCounter (snd (stepNode gen s x)). gen m \<noteq> i"
    by simp
  with Cons.IH[of "snd (stepNode gen s x)"] Cons.prems(1)
  have "pressableCallbacks (snd (mapWith (stepNode gen) (snd (stepNode gen s x)) xs)) i =
      pressableCallbacks (snd (stepNode gen s x)) i"
    by simp
  moreover have "pressableCallbacks (snd (stepNode gen s x)) i = pressableCallbacks s i"
    using Cons.prems by (simp add: stepNode_keep)
  ultimately show ?case by simp
qed

lemma stepNode_explicit:
  "id_prop n = Val i \<Longrightarrow> onPress n = Some cb \<Longrightarrow> i \<noteq> ''__proto__'' \<Longrightarrow>
   pressableCallbacks (snd (stepNode gen s (b, n))) i = Some cb \<and>
   i \<in> set (callbackIds (snd (stepNode gen s (b, n))))"
  by (simp add: node_defs assign_other)






subsection \<open>Descriptors and positions\<close>









section \<open>The identifier \<open>__proto__\<close>\<close>

text \<open>
  A callback given under the identifier \<open>__proto__\<close> is not registered: after
  \<open>{actions: [{id: '__proto__', onPress: f}]}\<close> on a new template the registry has no
  key, and an event for \<open>__proto__\<close> reads the prototype object and is dropped.
\<close>

lemma parseConfig_proto_id_not_registered:
  "pressableCallbacks
     (snd (parseConfig sampleId (\<lambda>uc. uc) newTemplate
        (withActions [\<lparr>id_prop = Val ''__proto__'', onPress = Some (JSFunction 1),
                       other = ''Back''\<rparr>]))) = Map.empty \<and>
   buttonPressed
     (snd (parseConfig sampleId (\<lambda>uc. uc) newTemplate
        (withActions [\<lparr>id_prop = Val ''__proto__'', onPress = Some (JSFunction 1),
                       other = ''Back''\<rparr>])))
     \<lparr>templateId = Absent, buttonId = ''__proto__''\<rparr> = Dropped"
  by (simp add: eval_defs withActions_def emptyConfig_def newTemplate_def buttonPressed_def
      getProperty_def objectPrototype_def)

section \<open>The buttonPressed listener: claims C5, C9\<close>

text \<open>
  Claim C5 says that an event whose \<open>buttonId\<close> is not a key of the registry is dropped:
  no call, no error. The guard of lines 104-106 does that for a name found nowhere, but
  the read of line 103 follows the prototype chain. For \<open>valueOf\<close>, which a new
  template's registry does not have, it finds \<open>Object.prototype.valueOf\<close>, the guard lets
  the function through, line 107 calls it with \<open>this\<close> undefined and a \<open>TypeError\<close>
  escapes from the handler; for \<open>toString\<close> the inherited function is called and
  returns. A name that is neither a key nor inherited is dropped.
\<close>

theorem buttonPressed_inherited_name_called:
  "pressableCallbacks newTemplate ''valueOf'' = None \<and>
   buttonPressed newTemplate \<lparr>templateId = Absent, buttonId = ''valueOf''\<rparr> = TypeError \<and>
   pressableCallbacks newTemplate ''toString'' = None \<and>
   buttonPressed newTemplate \<lparr>templateId = Absent, buttonId = ''toString''\<rparr> =
     InvokedBuiltin ToString \<and>
   buttonPressed newTemplate \<lparr>templateId = Absent, buttonId = ''gone''\<rparr> = Dropped"
  by (simp add: newTemplate_def buttonPressed_def getProperty_def objectPrototype_def)

text \<open>
  Claim C9. What the handler does depends on the event's \<open>buttonId\<close> only, not on its
  \<open>templateId\<close>: two events with the same \<open>buttonId\<close> have the same outcome, and a
  registered function is called whenever \<open>buttonId\<close> is its key, whatever \<open>templateId\<close>
  is (absent included).
\<close>

theorem buttonPressed_ignores_templateId:
  "(buttonId e1 = buttonId e2 \<longrightarrow> buttonPressed s e1 = buttonPressed s e2) \<and>
   (pressableCallbacks s b = Some (JSFunction f) \<longrightarrow>
      buttonPressed s \<lparr>templateId = t, buttonId = b\<rparr> = Invoked f)"
  by (simp add: buttonPressed_def getProperty_def)

theorem buttonPressed_ignores_templateId_witness:
  "buttonId \<lparr>templateId = Val ''t1'', buttonId = ''a''\<rparr> =
     buttonId \<lparr>templateId = Absent, buttonId = ''a''\<rparr> \<and>
   buttonPressed (newTemplate\<lparr>pressableCallbacks := [''a'' \<mapsto> JSFunction 1]\<rparr>)
       \<lparr>templateId = Val ''t1'', buttonId = ''a''\<rparr> =
     buttonPressed (newTemplate\<lparr>pressableCallbacks := [''a'' \<mapsto> JSFunction 1]\<rparr>)
       \<lparr>templateId = Absent, buttonId = ''a''\<rparr> \<and>
   pressableCallbacks (newTemplate\<lparr>pressableCallbacks := [''a'' \<mapsto> JSFunction 1]\<rparr>) ''a''
     = Some (JSFunction 1) \<and>
   buttonPressed (newTemplate\<lparr>pressableCallbacks := [''a'' \<mapsto> JSFunction 1]\<rparr>)
       \<lparr>templateId = Val ''t2'', buttonId = ''a''\<rparr> = Invoked 1"
  using buttonPressed_ignores_templateId
    [of "\<lparr>templateId = Val ''t1'', buttonId = ''a''\<rparr>"
        "\<lparr>templateId = Absent, buttonId = ''a''\<rparr>"
        "newTemplate\<lparr>pressableCallbacks := [''a'' \<mapsto> JSFunction 1]\<rparr>"
        "''a''" 1 "Val ''t2''"]
  by (simp add: newTemplate_def)

section \<open>Update at a stable identifier: claim C4\<close>

text \<open>
  Claim C4. After \<open>parseConfig\<close> with an action \<open>{id: x, onPress: f1}\<close> and then
  \<open>parseConfig\<close> with \<open>{id: x, onPress: f2}\<close>, a \<open>buttonPressed\<close> event with identifier
  \<open>x\<close> calls \<open>f2\<close> and not \<open>f1\<close>; the second assignment to \<open>pressableCallbacks[x]\<close>
  overwrites the first. This holds from any earlier state of the template, for the
  identifier \<open>x\<close> of the claim and for every other one that is not \<open>__proto__\<close>, the one
  name whose assignment creates no key.
\<close>

theorem parseConfig_update_semantics:
  "x \<noteq> ''__proto__'' \<Longrightarrow>
   buttonPressed
     (parseConfigs gen super s
        [\<lparr>actions = Val [\<lparr>id_prop = Val x, onPress = Some (JSFunction f1), other = o1\<rparr>],
          mapButtons = Absent, navigateAction = Absent, pane = Absent, buttons = Absent,
          rest = r1\<rparr>,
         \<lparr>actions = Val [\<lparr>id_prop = Val x, onPress = Some (JSFunction f2), other = o2\<rparr>],
          mapButtons = Absent, navigateAction = Absent, pane = Absent, buttons = Absent,
          rest = r2\<rparr>])
     \<lparr>templateId = t, buttonId = x\<rparr> = Invoked f2 \<and>
   (f1 \<noteq> f2 \<longrightarrow>
    buttonPressed
     (parseConfigs gen super s
        [\<lparr>actions = Val [\<lparr>id_prop = Val x, onPress = Some (JSFunction f1), other = o1\<rparr>],
          mapButtons = Absent, navigateAction = Absent, pane = Absent, buttons = Absent,
          rest = r1\<rparr>,
         \<lparr>actions = Val [\<lparr>id_prop = Val x, onPress = Some (JSFunction f2), other = o2\<rparr>],
          mapButtons = Absent, navigateAction = Absent, pane = Absent, buttons = Absent,
          rest = r2\<rparr>])
     \<lparr>templateId = t, buttonId = x\<rparr> \<noteq> Invoked f1)"
  by (simp add: eval_defs buttonPressed_def getProperty_def)

theorem parseConfig_update_semantics_witness:
  "''x'' \<noteq> ''__proto__'' \<and> (1::nat) \<noteq> 2 \<and>
   buttonPressed
     (parseConfigs sampleId (\<lambda>uc. uc) newTemplate
        [withActions [\<lparr>id_prop = Val ''x'', onPress = Some (JSFunction 1), other = ''Go''\<rparr>],
         withActions [\<lparr>id_prop = Val ''x'', onPress = Some (JSFunction 2), other = ''Go''\<rparr>]])
     \<lparr>templateId = Absent, buttonId = ''x''\<rparr> = Invoked 2 \<and>
   buttonPressed
     (parseConfigs sampleId (\<lambda>uc. uc) newTemplate
        [withActions [\<lparr>id_prop = Val ''x'', onPress = Some (JSFunction 1), other = ''Go''\<rparr>],
         withActions [\<lparr>id_prop = Val ''x'', onPress = Some (JSFunction 2), other = ''Go''\<rparr>]])
     \<lparr>templateId = Absent, buttonId = ''x''\<rparr> \<noteq> Invoked 1"
proof -
  have x: "''x'' \<noteq> ''__proto__''" by simp
  from parseConfig_update_semantics
    [OF x, where gen = sampleId and super = "\<lambda>uc. uc" and s = newTemplate and ?f1.0 = 1
       and ?f2.0 = 2 and ?o1.0 = "''Go''" and ?o2.0 = "''Go''" and ?r1.0 = "()"
       and ?r2.0 = "()" and t = Absent]
  show ?thesis by (simp add: withActions_def emptyConfig_def)
qed

section \<open>Absent slots: claims C8, C10\<close>





section \<open>Stability under explicit identifiers: claim C6\<close>




section \<open>Grid buttons without onPress: claim C1\<close>




section \<open>The keys of the registry: claim C2\<close>

text \<open>
  Claim C2 says that after each call the keys of \<open>pressableCallbacks\<close> are exactly the
  identifiers of the clean configuration that come from callback-bearing nodes. Every
  node's identifier is pushed on \<open>callbackIds\<close> before \<open>'onPress' in\<close> is tested
  (lines 144, 160, 187, 205, 220), so the filter of lines 232-234 keeps an entry of an
  earlier call when a node of the new configuration has its identifier and no callback:
  after \<open>{actions: [{id: 'a', onPress: f1}]}\<close> and then \<open>{actions: [{id: 'a'}]}\<close> the key
  \<open>a\<close> is still there, while no node of the second configuration carries a callback.
\<close>

theorem parseConfig_stale_key_retained:
  "dom (pressableCallbacks (parseConfigs sampleId (\<lambda>uc. uc) newTemplate [callbackA, plainA])) =
     {''a''} \<and>
   callbackNodeIds plainA
     (updatedConfig sampleId (parseConfigs sampleId (\<lambda>uc. uc) newTemplate [callbackA]) plainA) = {}"
  by (simp add: eval_defs newTemplate_def emptyConfig_def sampleId_def withActions_def callbackA_def
      plainA_def callbackNodeIds_def eval_out)

text \<open>
  Claim C2 as amended. Take a sequence of \<open>parseConfig\<close> calls on one template in which
  no node has the explicit identifier \<open>__proto__\<close>, with a generator that does not
  produce it. After each call the keys of the registry are the identifiers of that
  call's clean configuration that come from callback-bearing nodes, together with the
  keys held before the call that are among the identifiers this call's walk collects:
  the explicit identifier of every node that has one, with or without callback, and the
  identifiers generated during the call. So a key that the walk does not collect is
  gone after the call, and an identifier carried by any node of the latest clean
  configuration that was a key before the call is still a key after it.
\<close>

theorem parseConfig_registry_keys:
  assumes ids: "\<forall>c'\<in>set (cs @ [c]). \<forall>n\<in>set (configNodes c'). id_prop n \<noteq> Val ''__proto__''"
    and gen: "\<forall>m. gen m \<noteq> ''__proto__''"
  shows
    "dom (pressableCallbacks (parseConfigs gen super s0 (cs @ [c]))) =
       callbackNodeIds c (updatedConfig gen (parseConfigs gen super s0 cs) c) \<union>
       (dom (pressableCallbacks (parseConfigs gen super s0 cs)) \<inter>
        set (collectedIds gen (idCounter (parseConfigs gen super s0 cs)) (nodesInOrder c))) \<and>
     (\<forall>k. k \<notin> set (collectedIds gen (idCounter (parseConfigs gen super s0 cs)) (nodesInOrder c)) \<longrightarrow>
          k \<notin> dom (pressableCallbacks (parseConfigs gen super s0 (cs @ [c])))) \<and>
     (\<forall>d\<in>set (configNodes (updatedConfig gen (parseConfigs gen super s0 cs) c)). \<forall>i.
        id_prop d = Val i \<and> i \<in> dom (pressableCallbacks (parseConfigs gen super s0 cs)) \<longrightarrow>
        i \<in> dom (pressableCallbacks (parseConfigs gen super s0 (cs @ [c]))))"
proof -
  let ?s = "parseConfigs gen super s0 cs"
  let ?ids = "collectedIds gen (idCounter ?s) (nodesInOrder c)"
  have "\<forall>n\<in>set (configNodes c). id_prop n \<noteq> Val ''__proto__''" using ids by simp
  then have np: "''__proto__'' \<notin> set ?ids"
    using gen by (intro configNodes_avoid) simp_all
  have keys: "dom (pressableCallbacks (snd (parseConfig gen super ?s c))) =
     callbackNodeIds c (updatedConfig gen ?s c) \<union> (dom (pressableCallbacks ?s) \<inter> set ?ids)"
    by (rule parseConfig_dom[OF np])
  have sub: "callbackNodeIds c (updatedConfig gen ?s c) \<subseteq> set ?ids"
    using walk_ids_sub[of c gen ?s] by (simp add: walk_collected)
  have pruned: "k \<notin> dom (pressableCallbacks (snd (parseConfig gen super ?s c)))"
    if "k \<notin> set ?ids" for k
    using that keys sub by blast
  have kept: "i \<in> dom (pressableCallbacks (snd (parseConfig gen super ?s c)))"
    if "d \<in> set (configNodes (updatedConfig gen ?s c))" "id_prop d = Val i"
      "i \<in> dom (pressableCallbacks ?s)" for d i
  proof -
    from that(1,2) have "i \<in> set ?ids"
      using walk_out_ids[of d gen ?s c i] by (simp add: walk_collected)
    with that(3) keys show ?thesis by blast
  qed
  show ?thesis using keys pruned kept by (simp add: parseConfigs_snoc)
qed

theorem parseConfig_registry_keys_witness:
  "''a'' \<in> dom (pressableCallbacks (parseConfigs sampleId (\<lambda>uc. uc) newTemplate [callbackA])) \<and>
   \<lparr>id_prop = Val ''a'', onPress = None, other = ''Back''\<rparr>
     \<in> set (configNodes (updatedConfig sampleId
          (parseConfigs sampleId (\<lambda>uc. uc) newTemplate [callbackA]) plainA)) \<and>
   ''a'' \<in> dom (pressableCallbacks
      (parseConfigs sampleId (\<lambda>uc. uc) newTemplate ([callbackA] @ [plainA]))) \<and>
   collectedIds sampleId
     (idCounter (parseConfigs sampleId (\<lambda>uc. uc) newTemplate [callbackA]))
     (nodesInOrder callbackB) = [''b''] \<and>
   ''a'' \<notin> dom (pressableCallbacks
      (parseConfigs sampleId (\<lambda>uc. uc) newTemplate ([callbackA] @ [callbackB])))"
proof -
  let ?s = "parseConfigs sampleId (\<lambda>uc. uc) newTemplate [callbackA]"
  have gen: "\<forall>m. sampleId m \<noteq> ''__proto__''" by (simp add: sampleId_def)
  have idsA: "\<forall>c'\<in>set ([callbackA] @ [plainA]). \<forall>n\<in>set (configNodes c').
      id_prop n \<noteq> Val ''__proto__''"
    by (simp add: callbackA_def plainA_def withActions_def emptyConfig_def configNodes_def
        paneActions_def slotList_def single_def)
  have idsB: "\<forall>c'\<in>set ([callbackA] @ [callbackB]). \<forall>n\<in>set (configNodes c').
      id_prop n \<noteq> Val ''__proto__''"
    by (simp add: callbackA_def callbackB_def withActions_def emptyConfig_def configNodes_def
        paneActions_def slotList_def single_def)
  have d: "\<lparr>id_prop = Val ''a'', onPress = None, other = ''Back''\<rparr>
     \<in> set (configNodes (updatedConfig sampleId ?s plainA))"
    by (simp add: configNodes_def eval_out plainA_def newTemplate_def emptyConfig_def sampleId_def
        withActions_def paneActions_def slotList_def single_def node_defs)
  have k: "''a'' \<in> dom (pressableCallbacks ?s)"
    by (simp add: eval_defs callbackA_def newTemplate_def emptyConfig_def sampleId_def
        withActions_def)
  have i: "id_prop \<lparr>id_prop = Val ''a'', onPress = None, other = ''Back''\<rparr> = Val ''a''"
    by simp
  from parseConfig_registry_keys [OF idsA gen, of "\<lambda>uc. uc" newTemplate] d k i
  have kept: "''a'' \<in> dom (pressableCallbacks
      (parseConfigs sampleId (\<lambda>uc. uc) newTemplate ([callbackA] @ [plainA])))"
    by blast
  have col: "collectedIds sampleId (idCounter ?s) (nodesInOrder callbackB) = [''b'']"
    by (simp add: callbackB_def withActions_def emptyConfig_def nodesInOrder_def paneActions_def
        slotList_def single_def)
  then have "''a'' \<notin> set (collectedIds sampleId (idCounter ?s) (nodesInOrder callbackB))"
    by simp
  with parseConfig_registry_keys [OF idsB gen, of "\<lambda>uc. uc" newTemplate]
  have gone: "''a'' \<notin> dom (pressableCallbacks
      (parseConfigs sampleId (\<lambda>uc. uc) newTemplate ([callbackA] @ [callbackB])))"
    by blast
  from k d kept col gone show ?thesis by blast
qed

section \<open>Callbacks move to the registry: claim C3\<close>




section \<open>Two nodes with one explicit identifier: claim C7\<close>

text \<open>
  Claim C7 says that when two callback-bearing nodes of one configuration share an
  explicit identifier, the registry ends with the callback of the node processed later.
  Nothing keeps the generator from handing out that identifier: with a generator whose
  next identifier is \<open>#\<close>, a button and an action with the explicit identifier \<open>#\<close>
  followed by an action with a callback and no \<open>id\<close> leave the third callback under
  \<open>#\<close>, not the second.
\<close>

theorem parseConfig_generated_id_overwrites:
  "map id_prop (configNodes collidingIds) = [Val ''#'', Val ''#'', Absent] \<and>
   pressableCallbacks (snd (parseConfig sampleId (\<lambda>uc. uc) newTemplate collidingIds)) ''#'' =
     Some (JSFunction 3)"
  by (simp add: eval_defs configNodes_def collidingIds_def emptyConfig_def newTemplate_def
      sampleId_def)

text \<open>
  Claim C7 as amended. Take a configuration in which no node has the explicit
  identifier \<open>__proto__\<close>, with a generator that from this call on produces neither
  \<open>__proto__\<close> nor \<open>x\<close>. When two callback-bearing nodes have the same explicit
  identifier \<open>x\<close> and no callback-bearing node processed after the later one has the
  explicit identifier \<open>x\<close>, \<open>parseConfig\<close> raises nothing (it has no throwing
  statement on such a configuration, and the model is a total function) and the
  registry ends with the callback of the later node: the earlier node's callback is
  stored under \<open>x\<close> when that node is processed and is overwritten. The order is the
  order of processing: pane actions, buttons, actions, map buttons, navigate action.
\<close>

theorem parseConfig_last_write_wins:
  assumes order: "nodesInOrder c = pre @ (b1, n1) # mid @ (b2, n2) # post"
    and first: "id_prop n1 = Val x" "onPress n1 = Some f1"
    and second: "id_prop n2 = Val x" "onPress n2 = Some f2"
    and later: "\<forall>(b, n)\<in>set post. onPress n = None \<or> id_prop n \<noteq> Val x"
    and gen: "\<forall>m\<ge>idCounter s. gen m \<noteq> x"
    and ids: "\<forall>n\<in>set (configNodes c). id_prop n \<noteq> Val ''__proto__''"
    and genp: "\<forall>m\<ge>idCounter s. gen m \<noteq> ''__proto__''"
  shows "pressableCallbacks (snd (mapWith (stepNode gen) (atPane s) (pre @ [(b1, n1)]))) x = Some f1 \<and>
         pressableCallbacks (snd (parseConfig gen super s c)) x = Some f2"
proof -
  let ?F = "stepNode gen"
  have "n1 \<in> set (configNodes c)"
    unfolding nodesInOrder_snd[symmetric] order by simp
  with ids first(1) have xp: "x \<noteq> ''__proto__''" by auto
  have 1: "pressableCallbacks (snd (mapWith ?F (atPane s) (pre @ [(b1, n1)]))) x = Some f1"
    using stepNode_explicit[OF first xp] by (simp add: mapWith_append case_prod_beta)
  let ?s2 = "snd (mapWith ?F (atPane s) (pre @ (b1, n1) # mid @ [(b2, n2)]))"
  have split: "nodesInOrder c = (pre @ (b1, n1) # mid @ [(b2, n2)]) @ post"
    by (simp add: order)
  have "?s2 = snd (?F (snd (mapWith ?F (atPane s) (pre @ (b1, n1) # mid))) (b2, n2))"
    using mapWith_append[of ?F "atPane s" "pre @ (b1, n1) # mid" "[(b2, n2)]"]
    by (simp add: case_prod_beta)
  with stepNode_explicit[OF second xp]
  have at2: "pressableCallbacks ?s2 x = Some f2" "x \<in> set (callbackIds ?s2)"
    by simp_all
  have fin: "snd (walk gen s c) = snd (mapWith ?F ?s2 post)"
    unfolding walk_snd_nodes split by (simp add: mapWith_append)
  have later': "\<forall>y\<in>set post. onPress (snd y) = None \<or> id_prop (snd y) \<noteq> Val x"
    using later by (auto simp: case_prod_beta)
  have "idCounter s \<le> idCounter ?s2"
    using mapWith_counter_mono[of "atPane s" gen "pre @ (b1, n1) # mid @ [(b2, n2)]"] by simp
  with gen have gen': "\<forall>m\<ge>idCounter ?s2. gen m \<noteq> x" by simp
  have keep: "pressableCallbacks (snd (walk gen s c)) x = Some f2"
    unfolding fin using mapWith_keep[OF later' gen'] at2(1) by simp
  have "x \<in> set (callbackIds (snd (walk gen s c)))"
    unfolding fin using mapWith_ids_mono[of ?s2 gen post] at2(2) by blast
  with keep have "pressableCallbacks (snd (parseConfig gen super s c)) x = Some f2"
    by (simp add: parseConfig_snd)
  with 1 show ?thesis by simp
qed

theorem parseConfig_last_write_wins_witness:
  "nodesInOrder sharedId =
     [(True, \<lparr>id_prop = Val ''x'', onPress = Some (JSFunction 1), other = ''Menu''\<rparr>),
      (False, \<lparr>id_prop = Val ''x'', onPress = Some (JSFunction 2), other = ''Back''\<rparr>),
      (False, \<lparr>id_prop = Absent, onPress = Some (JSFunction 3), other = ''Pan''\<rparr>)] \<and>
   pressableCallbacks
     (snd (mapWith (stepNode sampleId) (atPane newTemplate)
        ([] @ [(True, \<lparr>id_prop = Val ''x'', onPress = Some (JSFunction 1), other = ''Menu''\<rparr>)])))
     ''x'' = Some (JSFunction 1) \<and>
   pressableCallbacks (snd (parseConfig sampleId (\<lambda>uc. uc) newTemplate sharedId)) ''x'' =
     Some (JSFunction 2)"
proof -
  let ?n1 = "\<lparr>id_prop = Val ''x'', onPress = Some (JSFunction 1), other = ''Menu''\<rparr>"
  let ?n2 = "\<lparr>id_prop = Val ''x'', onPress = Some (JSFunction 2), other = ''Back''\<rparr>"
  let ?n3 = "\<lparr>id_prop = Absent, onPress = Some (JSFunction 3), other = ''Pan''\<rparr>"
  have order: "nodesInOrder sharedId = [] @ (True, ?n1) # [] @ (False, ?n2) # [(False, ?n3)]"
    by (simp add: sharedId_def emptyConfig_def nodesInOrder_def paneActions_def slotList_def
        single_def)
  have later: "\<forall>(b, n)\<in>set [(False, ?n3)]. onPress n = None \<or> id_prop n \<noteq> Val ''x''"
    by simp
  have gen: "\<forall>m\<ge>idCounter newTemplate. sampleId m \<noteq> ''x''" by (simp add: sampleId_def)
  have ids: "\<forall>n\<in>set (configNodes sharedId). id_prop n \<noteq> Val ''__proto__''"
    by (simp add: sharedId_def emptyConfig_def configNodes_def paneActions_def slotList_def
        single_def)
  have genp: "\<forall>m\<ge>idCounter newTemplate. sampleId m \<noteq> ''__proto__''"
    by (simp add: sampleId_def)
  from parseConfig_last_write_wins
    [OF order _ _ _ _ later gen ids genp,
     where ?f1.0 = "JSFunction 1" and ?f2.0 = "JSFunction 2" and super = "\<lambda>uc. uc"]
    order
  show ?thesis by simp
qed

end
